theory Spec2Isabelle
  imports Complex_Main
begin

section \<open>Ranking along the time axis (src/climtas/rank.py)\<close>

subsection \<open>Errors\<close>

text \<open>
  Every exception the modelled code can raise is a value. \<open>ValueError\<close> and \<open>AxisError\<close>
  are the exceptions of the array libraries that \<open>rank.py\<close> calls; the remaining
  constructors name the precondition failures of the blocked operations.
\<close>

datatype error =
    ValueError
  | AxisError
  | MissingCoordinate
  | PartialYear
  | IrregularAxis
  | UnevenSamples
  | MissingGroup

subsection \<open>Arrays\<close>

text \<open>
  A numpy array: its shape and its elements in row-major (C) order. A well-formed array
  holds as many elements as the product of its shape.
\<close>

record 'a ndarray =
  shape :: "nat list"
  data :: "'a list"

definition wf_ndarray :: "'a ndarray \<Rightarrow> bool" where
  "wf_ndarray arr \<longleftrightarrow> length (data arr) = prod_list (shape arr)"

text \<open>
  An \<open>xarray.DataArray\<close> as \<open>rank.py\<close> uses it: the optional name, the dimension names
  (one per axis), the values and the attribute dictionary.
\<close>

record 'a DataArray =
  name :: "string option"
  dims :: "string list"
  array :: "'a ndarray"
  attrs :: "string \<rightharpoonup> string"

definition wf_DataArray :: "'a DataArray \<Rightarrow> bool" where
  "wf_DataArray da \<longleftrightarrow>
     length (dims da) = length (shape (array da)) \<and> wf_ndarray (array da)"

subsection \<open>Library functions called by \<open>rank.py\<close>\<close>

text \<open>\<open>tuple.index\<close>: the position of the first occurrence, if any.\<close>

fun index_of :: "'a list \<Rightarrow> 'a \<Rightarrow> nat option" where
  "index_of [] x = None"
| "index_of (y # ys) x =
     (if y = x then Some 0 else map_option Suc (index_of ys x))"

text \<open>
  \<open>DataArray.get_axis_num(dim)\<close>: the axis number of the dimension called \<open>dim\<close>;
  a \<open>ValueError\<close> when the array has no such dimension.
\<close>

definition get_axis_num :: "'a DataArray \<Rightarrow> string \<Rightarrow> error + nat" where
  "get_axis_num da dname =
     (case index_of (dims da) dname of None \<Rightarrow> Inl ValueError | Some axis \<Rightarrow> Inr axis)"

text \<open>
  \<open>scipy.stats.rankdata(a)\<close> with its default method \<open>average\<close>: every element gets the
  mean of the ranks its tie group occupies, that is
  \<open>(#{y. y \<le> x} + #{y. y < x} + 1) / 2\<close>. The result has the length of \<open>a\<close>.
\<close>

definition rankdata :: "'a::linorder list \<Rightarrow> real list" where
  "rankdata a =
     map (\<lambda>x. (real (length (filter (\<lambda>y. y \<le> x) a))
                + real (length (filter (\<lambda>y. y < x) a)) + 1) / 2) a"

text \<open>
  The 1-D slice of \<open>arr\<close> along \<open>axis\<close> at position \<open>out\<close> of the axes before \<open>axis\<close>
  (flattened) and position \<open>inn\<close> of the axes after it (flattened).
\<close>

definition lane :: "'a ndarray \<Rightarrow> nat \<Rightarrow> nat \<Rightarrow> nat \<Rightarrow> 'a list" where
  "lane arr axis out inn =
     (let n = shape arr ! axis;
          inner = prod_list (drop (Suc axis) (shape arr))
      in map (\<lambda>k. data arr ! ((out * n + k) * inner + inn)) [0..<n])"

text \<open>
  \<open>numpy.apply_along_axis(func1d, axis, arr)\<close> for a \<open>func1d\<close> that returns 1-D arrays.
  numpy raises \<open>AxisError\<close> for an axis out of range and \<open>ValueError\<close> ("Cannot
  apply_along_axis when any iteration dimensions are 0") when one of the other axes is
  empty. The first slice's result fixes the length \<open>m\<close> of the output along \<open>axis\<close>; each
  slice's result is assigned to its place in the output buffer, where a result of length
  \<open>m\<close> fits, one of length 1 is broadcast, and any other length is a \<open>ValueError\<close>.
\<close>

definition apply_along_axis ::
  "('a list \<Rightarrow> 'b list) \<Rightarrow> nat \<Rightarrow> 'a ndarray \<Rightarrow> error + 'b ndarray" where
  "apply_along_axis func1d axis arr =
     (let s = shape arr;
          outer = prod_list (take axis s);
          inner = prod_list (drop (Suc axis) s)
      in if length s \<le> axis then Inl AxisError
         else if outer * inner = 0 then Inl ValueError
         else
           let m = length (func1d (lane arr axis 0 0));
               results = map (\<lambda>j. func1d (lane arr axis (j div inner) (j mod inner)))
                             [0..<outer * inner]
           in if list_ex (\<lambda>r. length r \<noteq> m \<and> length r \<noteq> 1) results then Inl ValueError
              else Inr \<lparr>shape = take axis s @ [m] @ drop (Suc axis) s,
                        data = map (\<lambda>j. let r = results ! ((j div (m * inner)) * inner + j mod inner)
                                         in if length r = m then r ! ((j div inner) mod m)
                                            else r ! 0)
                                   [0..<outer * m * inner]\<rparr>)"

subsection \<open>\<open>rank_along_dim\<close>\<close>

text \<open>
  \<open>rank.py\<close>, lines 28 to 40. The parameter \<open>dim\<close> (here \<open>dname\<close>) is accepted and never
  read: the axis is always the one called \<open>time\<close>. The result is what numpy returns, a
  plain array.
\<close>

definition rank_along_dim :: "'a::linorder DataArray \<Rightarrow> string \<Rightarrow> error + real ndarray" where
  "rank_along_dim da dname =
     (case get_axis_num da ''time'' of
        Inl e \<Rightarrow> Inl e
      | Inr axis \<Rightarrow> apply_along_axis rankdata axis (array da))"

text \<open>
  The function as section 4.1 of the specification words it: the rank transform along
  the axis named by \<open>dim\<close>.
\<close>

definition rank_along_named_dim ::
  "'a::linorder DataArray \<Rightarrow> string \<Rightarrow> error + real ndarray" where
  "rank_along_named_dim da dname =
     (case get_axis_num da dname of
        Inl e \<Rightarrow> Inl e
      | Inr axis \<Rightarrow> apply_along_axis rankdata axis (array da))"

subsection \<open>\<open>rank_by_dayofyear\<close> and \<open>rank_by_monthday\<close>\<close>

text \<open>
  An f-string formats a name that is \<open>None\<close> as the text \<open>None\<close>.
\<close>

fun format_name :: "string option \<Rightarrow> string" where
  "format_name None = ''None''"
| "format_name (Some s) = s"

text \<open>
  \<open>rank.py\<close>, lines 43 to 60 and 63 to 81. The helpers \<open>apply_by_dayofyear\<close> and
  \<open>apply_by_monthday\<close> come from \<open>climtas.helpers\<close>, which is not among the sources; each
  is a parameter here: a function that takes the array and the function to apply to every
  group, and returns a labeled array or raises. \<open>rank_along_dim\<close> is handed over as it is,
  so the helper calls it with the default \<open>dim = "time"\<close>. The three assignments update the
  helper's result in place.
\<close>

type_synonym 'a apply_by =
  "'a DataArray \<Rightarrow> ('a DataArray \<Rightarrow> error + real ndarray) \<Rightarrow> error + real DataArray"

definition rank_by_dayofyear :: "'a::linorder apply_by \<Rightarrow> 'a DataArray \<Rightarrow> error + real DataArray" where
  "rank_by_dayofyear apply_by_dayofyear da =
     (case apply_by_dayofyear da (\<lambda>g. rank_along_dim g ''time'') of
        Inl e \<Rightarrow> Inl e
      | Inr r \<Rightarrow>
          Inr (r\<lparr>name := Some (format_name (name r) @ ''_rank''),
                 attrs := (attrs r)(''units'' \<mapsto> ''1'',
                                    ''cell_methods'' \<mapsto> ''time: rank_by_dayofyear'')\<rparr>))"

definition rank_by_monthday :: "'a::linorder apply_by \<Rightarrow> 'a DataArray \<Rightarrow> error + real DataArray" where
  "rank_by_monthday apply_by_monthday da =
     (case apply_by_monthday da (\<lambda>g. rank_along_dim g ''time'') of
        Inl e \<Rightarrow> Inl e
      | Inr r \<Rightarrow>
          Inr (r\<lparr>name := Some (format_name (name r) @ ''_rank''),
                 attrs := (attrs r)(''units'' \<mapsto> ''1'',
                                    ''cell_methods'' \<mapsto> ''time: rank_by_monthday'')\<rparr>))"

text \<open>
  What the array library does with a plain array that a function returned for a group:
  it is wrapped with the dimension names and the name of the group it came from.
\<close>

definition wrap_like :: "'a DataArray \<Rightarrow> 'b ndarray \<Rightarrow> 'b DataArray" where
  "wrap_like original new =
     \<lparr>name = name original, dims = dims original, array = new, attrs = Map.empty\<rparr>"

text \<open>
  A helper for an array whose timestamps all fall into one group: the function is applied
  to the whole array and its result is wrapped.
\<close>

definition apply_to_whole :: "'a apply_by" where
  "apply_to_whole da func = (case func da of Inl e \<Rightarrow> Inl e | Inr v \<Rightarrow> Inr (wrap_like da v))"

subsection \<open>Example arrays\<close>

text \<open>
  Two by two arrays with the dimensions \<open>time\<close> and \<open>x\<close>, one of them without a name; a
  one-dimensional array over \<open>x\<close>; and an array with two timestamps and no point along \<open>x\<close>.
\<close>

definition grid_2x2 :: "int DataArray" where
  "grid_2x2 = \<lparr>name = Some ''tas'', dims = [''time'', ''x''],
               array = \<lparr>shape = [2, 2], data = [1, 2, 3, 4]\<rparr>, attrs = Map.empty\<rparr>"

definition unnamed_2x2 :: "int DataArray" where
  "unnamed_2x2 = \<lparr>name = None, dims = [''time'', ''x''],
                  array = \<lparr>shape = [2, 2], data = [1, 2, 3, 4]\<rparr>, attrs = Map.empty\<rparr>"

definition row_x :: "int DataArray" where
  "row_x = \<lparr>name = Some ''tas'', dims = [''x''],
            array = \<lparr>shape = [3], data = [30, 10, 20]\<rparr>, attrs = Map.empty\<rparr>"

definition grid_2x0 :: "int DataArray" where
  "grid_2x0 = \<lparr>name = Some ''tas'', dims = [''time'', ''x''],
               array = \<lparr>shape = [2, 0], data = []\<rparr>, attrs = Map.empty\<rparr>"

section \<open>Blocked grouping and resampling\<close>

text \<open>
  \<open>blocked_groupby\<close>, \<open>blocked_resample\<close> and the wrapper they return live in
  \<open>climtas.blocked\<close>, which is not among the sources: only its test file is. This section
  models them from the specification (sections 3, 4.2 to 4.5 and 7), next to a model of
  the grouping of the labeled-array library that the tests compare them with.
\<close>

subsection \<open>Dates and group keys\<close>

text \<open>
  A daily time coordinate holds calendar dates. The calendar arithmetic is the date
  library's: the proleptic Gregorian calendar, with the ordinal of a date counted as
  Python's \<open>date.toordinal\<close> does.
\<close>

record date =
  year :: int
  month :: nat
  day :: nat

definition is_leap :: "int \<Rightarrow> bool" where
  "is_leap y \<longleftrightarrow> y mod 4 = 0 \<and> (y mod 100 \<noteq> 0 \<or> y mod 400 = 0)"

definition days_in_month :: "int \<Rightarrow> nat \<Rightarrow> nat" where
  "days_in_month y m =
     (if m = 2 then (if is_leap y then 29 else 28)
      else if m = 4 \<or> m = 6 \<or> m = 9 \<or> m = 11 then 30
      else 31)"

definition days_in_year :: "int \<Rightarrow> nat" where
  "days_in_year y = (if is_leap y then 366 else 365)"

definition days_before_year :: "int \<Rightarrow> int" where
  "days_before_year y = 365 * (y - 1) + (y - 1) div 4 - (y - 1) div 100 + (y - 1) div 400"

definition valid_date :: "date \<Rightarrow> bool" where
  "valid_date d \<longleftrightarrow>
     1 \<le> month d \<and> month d \<le> 12 \<and> 1 \<le> day d \<and> day d \<le> days_in_month (year d) (month d)"

text \<open>
  Modelled from the spec: the key derivation of section 4.2. The day-of-year key is the
  ordinal position within the year, 1-based; the month-day key is \<open>month * 100 + day\<close>.
\<close>

definition dayofyear :: "date \<Rightarrow> nat" where
  "dayofyear d = sum_list (map (days_in_month (year d)) [1..<month d]) + day d"

definition monthday :: "date \<Rightarrow> nat" where
  "monthday d = month d * 100 + day d"

definition toordinal :: "date \<Rightarrow> int" where
  "toordinal d = days_before_year (year d) + int (dayofyear d)"

datatype grouping = Dayofyear | Monthday

fun group_key :: "grouping \<Rightarrow> date \<Rightarrow> nat" where
  "group_key Dayofyear d = dayofyear d"
| "group_key Monthday d = monthday d"

text \<open>\<open>pandas.date_range(start, periods = n, freq = "D")\<close>: \<open>n\<close> consecutive days.\<close>

definition next_day :: "date \<Rightarrow> date" where
  "next_day d =
     (if day d < days_in_month (year d) (month d) then d\<lparr>day := day d + 1\<rparr>
      else if month d < 12 then \<lparr>year = year d, month = month d + 1, day = 1\<rparr>
      else \<lparr>year = year d + 1, month = 1, day = 1\<rparr>)"

fun date_range :: "date \<Rightarrow> nat \<Rightarrow> date list" where
  "date_range d 0 = []"
| "date_range d (Suc n) = d # date_range (next_day d) n"

subsection \<open>Labeled arrays along an axis\<close>

text \<open>
  Modelled from the spec: the labeled array of section 3, seen along the axis that is
  grouped or resampled. It holds the coordinates defined along that axis, by name, and
  one entry per position of the axis: a value for a series, a slice over the remaining
  axes otherwise. Each coordinate has one timestamp per entry. The chunk plan is left
  out: it decides how the external engine stores and schedules the array, not its values.
\<close>

record 'a labeled_array =
  axis_coords :: "(string \<times> date list) list"
  entries :: "'a list"

definition wf_labeled :: "'a labeled_array \<Rightarrow> bool" where
  "wf_labeled a \<longleftrightarrow> list_all (\<lambda>(n, ts). length ts = length (entries a)) (axis_coords a)"

subsection \<open>Preconditions of the blocked operations\<close>

text \<open>The differences, in days, between neighbouring timestamps.\<close>

fun steps :: "date list \<Rightarrow> int list" where
  "steps (a # b # ts) = (toordinal b - toordinal a) # steps (b # ts)"
| "steps ts = []"

text \<open>
  Modelled from the spec: section 4.3. A regular axis has one step throughout, so an axis
  put together from date ranges that are not adjacent is not regular. An axis spans whole
  years when it starts on the first day of a year and ends on the last day of a year.
  A daily axis is a regular axis whose step is one day.
\<close>

definition regular :: "date list \<Rightarrow> bool" where
  "regular ts = (case steps ts of [] \<Rightarrow> True | d # ds \<Rightarrow> list_all (\<lambda>x. x = d) ds)"

definition daily :: "date list \<Rightarrow> bool" where
  "daily ts = list_all (\<lambda>x. x = 1) (steps ts)"

definition whole_years :: "date list \<Rightarrow> bool" where
  "whole_years ts \<longleftrightarrow>
     ts \<noteq> [] \<and> month (hd ts) = 1 \<and> day (hd ts) = 1
       \<and> month (last ts) = 12 \<and> day (last ts) = 31"

subsection \<open>\<open>blocked_groupby\<close> and \<open>blocked_resample\<close>\<close>

text \<open>
  Modelled from the spec: the grouped-reduction wrapper of section 3 holds the source
  array and the group key sequence, one key per timestamp.
\<close>

record 'a grouped =
  source :: "'a labeled_array"
  group_keys :: "nat list"

text \<open>
  Modelled from the spec: \<open>blocked_groupby\<close> of \<open>climtas.blocked\<close>, sections 4.3 and 7.
  The named coordinate must exist, the axis must span whole years and be regular; every
  failure is raised when the wrapper is built.
\<close>

definition blocked_groupby ::
  "'a labeled_array \<Rightarrow> string \<Rightarrow> grouping \<Rightarrow> error + 'a grouped" where
  "blocked_groupby a dname mode =
     (case map_of (axis_coords a) dname of
        None \<Rightarrow> Inl MissingCoordinate
      | Some ts \<Rightarrow>
          if \<not> whole_years ts then Inl PartialYear
          else if \<not> regular ts then Inl IrregularAxis
          else Inr \<lparr>source = a, group_keys = map (group_key mode) ts\<rparr>)"

text \<open>
  Modelled from the spec: \<open>blocked_resample\<close> of \<open>climtas.blocked\<close>, sections 4.5 and 7.
  The named coordinate must exist, the sample count must divide the axis length and the
  axis must be regular. The axis is cut into consecutive blocks of \<open>n\<close> samples, so the
  key of a position is the number of its block.
\<close>

definition blocked_resample ::
  "'a labeled_array \<Rightarrow> string \<Rightarrow> nat \<Rightarrow> error + 'a grouped" where
  "blocked_resample a dname n =
     (case map_of (axis_coords a) dname of
        None \<Rightarrow> Inl MissingCoordinate
      | Some ts \<Rightarrow>
          if \<not> n dvd length ts then Inl UnevenSamples
          else if \<not> regular ts then Inl IrregularAxis
          else Inr \<lparr>source = a, group_keys = map (\<lambda>i. i div n) [0..<length ts]\<rparr>)"

subsection \<open>The wrapper's operations\<close>

text \<open>
  Modelled from the spec: section 4.4. A reduction returns one entry per distinct group
  key, in increasing key order, computed over all the entries that share the key.
\<close>

definition distinct_keys :: "nat list \<Rightarrow> nat list" where
  "distinct_keys ks = sorted_list_of_set (set ks)"

definition group_entries :: "'a grouped \<Rightarrow> nat \<Rightarrow> 'a list" where
  "group_entries w k =
     map snd (filter (\<lambda>(k', v). k' = k) (zip (group_keys w) (entries (source w))))"

definition grouped_reduce :: "('a list \<Rightarrow> 'b) \<Rightarrow> 'a grouped \<Rightarrow> (nat \<times> 'b) list" where
  "grouped_reduce op w = map (\<lambda>k. (k, op (group_entries w k))) (distinct_keys (group_keys w))"

text \<open>The four standard reductions, over the entries of one group (never empty).\<close>

definition minimum :: "'a::linorder list \<Rightarrow> 'a" where
  "minimum xs = foldl min (hd xs) (tl xs)"

definition maximum :: "'a::linorder list \<Rightarrow> 'a" where
  "maximum xs = foldl max (hd xs) (tl xs)"

definition total :: "real list \<Rightarrow> real" where
  "total xs = sum_list xs"

definition mean :: "real list \<Rightarrow> real" where
  "mean xs = sum_list xs / real (length xs)"

definition grouped_min :: "real grouped \<Rightarrow> (nat \<times> real) list" where
  "grouped_min w = grouped_reduce minimum w"

definition grouped_max :: "real grouped \<Rightarrow> (nat \<times> real) list" where
  "grouped_max w = grouped_reduce maximum w"

definition grouped_mean :: "real grouped \<Rightarrow> (nat \<times> real) list" where
  "grouped_mean w = grouped_reduce mean w"

definition grouped_sum :: "real grouped \<Rightarrow> (nat \<times> real) list" where
  "grouped_sum w = grouped_reduce total w"

text \<open>
  Modelled from the spec: the wrapper's subtraction, section 4.4. The per-group array is
  broadcast back against the per-timestamp array: every timestamp gets its entry minus
  the value of the group it belongs to. A key the per-group array does not have is an
  error.
\<close>

definition grouped_sub ::
  "'a::minus grouped \<Rightarrow> (nat \<times> 'a) list \<Rightarrow> error + 'a labeled_array" where
  "grouped_sub w other =
     (if list_all (\<lambda>k. map_of other k \<noteq> None) (group_keys w)
      then Inr ((source w)\<lparr>entries :=
                  map (\<lambda>(k, v). v - the (map_of other k))
                      (zip (group_keys w) (entries (source w)))\<rparr>)
      else Inl MissingGroup)"

text \<open>
  Modelled from the spec: the wrapper's \<open>apply\<close>, section 4.4. The function is applied to
  the entries of every group. When it does not reduce (every result is as long as its
  group) the results go back to the positions their entries came from, so the outcome is
  aligned with the array that was grouped; otherwise the outcome is what the function
  returned for every group, in key order.
\<close>

datatype 'b applied = Aligned "'b labeled_array" | PerGroup "(nat \<times> 'b list) list"

definition grouped_apply :: "('a list \<Rightarrow> 'b list) \<Rightarrow> 'a grouped \<Rightarrow> 'b applied" where
  "grouped_apply fn w =
     (let ks = group_keys w; uk = distinct_keys ks
      in if list_all (\<lambda>k. length (fn (group_entries w k)) = length (group_entries w k)) uk
         then Aligned \<lparr>axis_coords = axis_coords (source w),
                       entries = map (\<lambda>i. fn (group_entries w (ks ! i))
                                            ! length (filter (\<lambda>k. k = ks ! i) (take i ks)))
                                     [0..<length ks]\<rparr>
         else PerGroup (map (\<lambda>k. (k, fn (group_entries w k))) uk))"

subsection \<open>The grouping of the labeled-array library\<close>

text \<open>
  What the tests compare with: \<open>DataArray.groupby\<close> of the labeled-array library. It
  finds the sorted unique keys and, for every one, the positions that carry it.
\<close>

record 'a DataArrayGroupBy =
  obj :: "'a labeled_array"
  unique_coord :: "nat list"
  group_indices :: "nat list list"

text \<open>The positions that carry the key \<open>k\<close>, in increasing order.\<close>

definition positions_of :: "nat list \<Rightarrow> nat \<Rightarrow> nat list" where
  "positions_of ks k = filter (\<lambda>i. ks ! i = k) [0..<length ks]"

definition groupby ::
  "'a labeled_array \<Rightarrow> string \<Rightarrow> (date \<Rightarrow> nat) \<Rightarrow> error + 'a DataArrayGroupBy" where
  "groupby a dname key =
     (case map_of (axis_coords a) dname of
        None \<Rightarrow> Inl MissingCoordinate
      | Some ts \<Rightarrow>
          let ks = map key ts; uk = sort (remdups ks)
          in Inr \<lparr>obj = a, unique_coord = uk, group_indices = map (positions_of ks) uk\<rparr>)"

text \<open>A reduction selects every group by its positions, reduces it and joins the results.\<close>

definition groupby_reduce :: "('a list \<Rightarrow> 'b) \<Rightarrow> 'a DataArrayGroupBy \<Rightarrow> (nat \<times> 'b) list" where
  "groupby_reduce op g =
     map (\<lambda>(k, idx). (k, op (map (\<lambda>i. entries (obj g) ! i) idx)))
         (zip (unique_coord g) (group_indices g))"

text \<open>
  The inverse of a permutation given as a list: the place at which \<open>j\<close> stands.
\<close>

definition position_of :: "nat list \<Rightarrow> nat \<Rightarrow> nat" where
  "position_of p j = length (takeWhile (\<lambda>x. x \<noteq> j) p)"

text \<open>
  A binary operation of a grouping with a per-group array: every group is selected,
  the value of its key is subtracted from its entries, the groups are joined and the
  result is put back into the order of the original axis.
\<close>

definition groupby_sub ::
  "'a::minus DataArrayGroupBy \<Rightarrow> (nat \<times> 'a) list \<Rightarrow> error + 'a labeled_array" where
  "groupby_sub g other =
     (if list_all (\<lambda>k. map_of other k \<noteq> None) (unique_coord g)
      then
        let applied = concat (map (\<lambda>(k, idx). map (\<lambda>i. entries (obj g) ! i - the (map_of other k)) idx)
                                  (zip (unique_coord g) (group_indices g)));
            positions = concat (group_indices g)
        in Inr ((obj g)\<lparr>entries :=
                  map (\<lambda>j. applied ! position_of positions j) [0..<length positions]\<rparr>)
      else Inl MissingGroup)"

text \<open>Multiplying a labeled array by a number: every entry is multiplied.\<close>

definition times_scalar :: "real labeled_array \<Rightarrow> real \<Rightarrow> real labeled_array" where
  "times_scalar a c = a\<lparr>entries := map (\<lambda>x. x * c) (entries a)\<rparr>"

subsection \<open>Example series\<close>

text \<open>
  The series of the tests: the days from 1 January 2002 up to 31 December 2004; its slice
  \<open>[1:365]\<close>, which starts on 2 January; its slices \<open>[0:15]\<close> and \<open>[17:26]\<close> joined, which
  leaves a gap; and its slice \<open>[0:15]\<close>. A series carries the coordinate \<open>time\<close> and
  numbers its entries.
\<close>

definition days_2002_2004 :: "date list" where
  "days_2002_2004 = date_range \<lparr>year = 2002, month = 1, day = 1\<rparr> 1096"

definition days_from_jan2 :: "date list" where
  "days_from_jan2 = date_range \<lparr>year = 2002, month = 1, day = 2\<rparr> 364"

definition days_with_gap :: "date list" where
  "days_with_gap = date_range \<lparr>year = 2002, month = 1, day = 1\<rparr> 15
                   @ date_range \<lparr>year = 2002, month = 1, day = 18\<rparr> 9"

definition days_15 :: "date list" where
  "days_15 = date_range \<lparr>year = 2002, month = 1, day = 1\<rparr> 15"

definition series :: "date list \<Rightarrow> real labeled_array" where
  "series ts = \<lparr>axis_coords = [(''time'', ts)], entries = map real [0..<length ts]\<rparr>"

section \<open>Properties of the ranking functions\<close>

subsection \<open>Library functions\<close>

lemma index_of_less: "index_of xs x = Some i \<Longrightarrow> i < length xs"
  by (induction xs arbitrary: i) (auto split: if_splits)

lemma index_of_member: "x \<in> set xs \<Longrightarrow> \<exists>i. index_of xs x = Some i"
  by (induction xs) auto

lemma length_rankdata: "length (rankdata a) = length a"
  by (simp add: rankdata_def)

lemma length_lane: "length (lane arr axis out inn) = shape arr ! axis"
  by (simp add: lane_def Let_def)

lemma prod_list_split:
  fixes s :: "nat list"
  assumes "axis < length s"
  shows "prod_list (take axis s) * (s ! axis * prod_list (drop (Suc axis) s)) = prod_list s"
proof -
  from assms have "s = take axis s @ s ! axis # drop (Suc axis) s"
    by (rule id_take_nth_drop)
  then have "prod_list s = prod_list (take axis s @ s ! axis # drop (Suc axis) s)"
    by simp
  then show ?thesis by simp
qed

lemma prod_list_nonzero:
  fixes s :: "nat list"
  shows "prod_list s \<noteq> 0 \<longleftrightarrow> 0 \<notin> set s"
  by (induction s) auto

lemma results_index:
  fixes j :: nat
  assumes "j < outer * (n * inner)" and "0 < inner"
  shows "(j div (n * inner)) * inner + j mod inner < outer * inner"
    and "((j div (n * inner)) * inner + j mod inner) div inner = j div (n * inner)"
    and "((j div (n * inner)) * inner + j mod inner) mod inner = j mod inner"
proof -
  have a: "j div (n * inner) < outer"
    using assms(1) by (rule less_mult_imp_div_less)
  have b: "j mod inner < inner" using assms by simp
  from a have "Suc (j div (n * inner)) \<le> outer" by simp
  then have "Suc (j div (n * inner)) * inner \<le> outer * inner"
    by (rule mult_le_mono1)
  with b show "(j div (n * inner)) * inner + j mod inner < outer * inner" by simp
  show "((j div (n * inner)) * inner + j mod inner) div inner = j div (n * inner)"
    using assms(2) by simp
  show "((j div (n * inner)) * inner + j mod inner) mod inner = j mod inner"
    by simp
qed

text \<open>
  Ranking along an axis of an array none of whose other axes is empty: the shape is kept,
  and the element at a flat position is the rank of the input element there within its
  slice along the axis.
\<close>

lemma apply_along_axis_rankdata:
  assumes ax: "axis < length (shape arr)"
    and nz: "prod_list (take axis (shape arr)) * prod_list (drop (Suc axis) (shape arr)) \<noteq> 0"
  shows "apply_along_axis rankdata axis arr =
    Inr \<lparr>shape = shape arr,
         data = map (\<lambda>j. rankdata (lane arr axis
                                       (j div (shape arr ! axis * prod_list (drop (Suc axis) (shape arr))))
                                       (j mod prod_list (drop (Suc axis) (shape arr))))
                          ! ((j div prod_list (drop (Suc axis) (shape arr))) mod (shape arr ! axis)))
                    [0..<prod_list (shape arr)]\<rparr>"
proof -
  define s where "s = shape arr"
  define outer where "outer = prod_list (take axis s)"
  define inner where "inner = prod_list (drop (Suc axis) s)"
  define n where "n = s ! axis"
  define results where
    "results = map (\<lambda>j. rankdata (lane arr axis (j div inner) (j mod inner))) [0..<outer * inner]"
  have inner_pos: "0 < inner" using nz by (simp add: inner_def s_def)
  have len: "\<And>r. r \<in> set results \<Longrightarrow> length r = n"
    by (auto simp: results_def length_rankdata length_lane n_def s_def)
  have m: "length (rankdata (lane arr axis 0 0)) = n"
    by (simp add: length_rankdata length_lane n_def s_def)
  have noex: "\<not> list_ex (\<lambda>r. length r \<noteq> n \<and> length r \<noteq> 1) results"
    using len by (auto simp: list_ex_iff)
  have shp: "take axis s @ [n] @ drop (Suc axis) s = s"
    using ax id_take_nth_drop [of axis s] by (simp add: n_def s_def)
  have total: "outer * n * inner = prod_list s"
    using prod_list_split [of axis s] ax by (simp add: outer_def inner_def n_def s_def mult.assoc)
  have dat: "map (\<lambda>j. let r = results ! ((j div (n * inner)) * inner + j mod inner)
                       in if length r = n then r ! ((j div inner) mod n) else r ! 0)
                 [0..<outer * n * inner]
           = map (\<lambda>j. rankdata (lane arr axis (j div (n * inner)) (j mod inner)) ! ((j div inner) mod n))
                 [0..<prod_list s]"
  proof -
    have "\<And>j. j < outer * n * inner \<Longrightarrow>
            results ! ((j div (n * inner)) * inner + j mod inner)
              = rankdata (lane arr axis (j div (n * inner)) (j mod inner))"
    proof -
      fix j assume j: "j < outer * n * inner"
      then have j': "j < outer * (n * inner)" by (simp add: mult.assoc)
      note ri = results_index [OF j' inner_pos]
      show "results ! ((j div (n * inner)) * inner + j mod inner)
              = rankdata (lane arr axis (j div (n * inner)) (j mod inner))"
        unfolding results_def using ri(1) by (simp add: ri(2) ri(3))
    qed
    then show ?thesis
      unfolding total [symmetric]
      by (intro map_cong refl) (simp add: Let_def length_rankdata length_lane n_def s_def)
  qed
  have "apply_along_axis rankdata axis arr =
      Inr \<lparr>shape = take axis s @ [n] @ drop (Suc axis) s,
           data = map (\<lambda>j. let r = results ! ((j div (n * inner)) * inner + j mod inner)
                       in if length r = n then r ! ((j div inner) mod n) else r ! 0)
                 [0..<outer * n * inner]\<rparr>"
    using ax nz noex
    unfolding apply_along_axis_def Let_def m s_def [symmetric] outer_def [symmetric]
      inner_def [symmetric] results_def [symmetric]
    by (simp add: s_def [symmetric] m n_def [symmetric] outer_def [symmetric] inner_def [symmetric])
  then show ?thesis
    unfolding shp dat by (simp add: s_def n_def inner_def)
qed

lemma other_axes_nonzero:
  fixes s :: "nat list"
  assumes "\<forall>i<length s. i \<noteq> axis \<longrightarrow> s ! i \<noteq> 0"
  shows "prod_list (take axis s) * prod_list (drop (Suc axis) s) \<noteq> 0"
proof -
  have "0 \<notin> set (take axis s)"
  proof
    assume "0 \<in> set (take axis s)"
    then obtain i where "i < length (take axis s)" "take axis s ! i = 0"
      by (auto simp: in_set_conv_nth)
    with assms show False by auto
  qed
  moreover have "0 \<notin> set (drop (Suc axis) s)"
  proof
    assume "0 \<in> set (drop (Suc axis) s)"
    then obtain i where i: "i < length (drop (Suc axis) s)" "drop (Suc axis) s ! i = 0"
      by (auto simp: in_set_conv_nth)
    then have "Suc axis + i < length s" "Suc axis + i \<noteq> axis" "s ! (Suc axis + i) = 0"
      by simp_all
    with assms show False by blast
  qed
  ultimately show ?thesis
    using prod_list_nonzero [of "take axis s"] prod_list_nonzero [of "drop (Suc axis) s"]
    by simp
qed

subsection \<open>The dimension argument\<close>

text \<open>
  C3: \<open>rank_along_dim da dim\<close> is to rank along the axis named by \<open>dim\<close> and to fail
  exactly when that dimension is absent. The code ranks along \<open>time\<close> whatever \<open>dim\<close>
  is. For the array \<open>[[1, 2], [3, 4]]\<close> over \<open>(time, x)\<close> and \<open>dim = "x"\<close> it returns the
  ranks along \<open>time\<close>, \<open>[[1, 1], [2, 2]]\<close>, where the ranks along \<open>x\<close> are
  \<open>[[1, 2], [1, 2]]\<close>; for an array over \<open>x\<close> alone and \<open>dim = "x"\<close> it raises although
  the named dimension is present.
\<close>

theorem rank_along_dim_ignores_dim:
  "rank_along_dim grid_2x2 ''x'' = Inr \<lparr>shape = [2, 2], data = [1, 1, 2, 2]\<rparr>
   \<and> rank_along_named_dim grid_2x2 ''x'' = Inr \<lparr>shape = [2, 2], data = [1, 2, 1, 2]\<rparr>
   \<and> rank_along_dim row_x ''x'' = Inl ValueError
   \<and> rank_along_named_dim row_x ''x'' = Inr \<lparr>shape = [3], data = [3, 1, 2]\<rparr>"
  by code_simp

text \<open>
  C8: the result of \<open>rank_along_dim\<close> depends on the array only, never on the dimension
  argument: any two dimension names give the same result, be it an array or an error.
\<close>

theorem rank_along_dim_independent_of_dim:
  "rank_along_dim da d1 = rank_along_dim da d2"
  by (simp add: rank_along_dim_def)

subsection \<open>The shape of the ranks\<close>

text \<open>
  C9, as stated, fails: an array with a \<open>time\<close> dimension whose other dimension is empty
  makes numpy raise, so no array of ranks is returned.
\<close>

theorem rank_along_dim_empty_axis_counterexample:
  "index_of (dims grid_2x0) ''time'' = Some 0
   \<and> wf_DataArray grid_2x0
   \<and> rank_along_dim grid_2x0 ''time'' = Inl ValueError"
  by code_simp

text \<open>
  C9, amended: for every well-formed array that has a \<open>time\<close> dimension and no empty
  dimension besides it, \<open>rank_along_dim\<close> returns a plain array (shape and elements only)
  whose shape is the input's shape, with one rank per input element.
\<close>

theorem rank_along_dim_shape:
  assumes wf: "wf_DataArray da"
    and time: "index_of (dims da) ''time'' = Some axis"
    and nonempty: "\<forall>i<length (shape (array da)). i \<noteq> axis \<longrightarrow> shape (array da) ! i \<noteq> 0"
  shows "\<exists>r. rank_along_dim da dname = Inr r
           \<and> shape r = shape (array da)
           \<and> length (data r) = length (data (array da))"
proof -
  have ax: "axis < length (shape (array da))"
    using index_of_less [OF time] wf by (simp add: wf_DataArray_def)
  note nz = other_axes_nonzero [OF nonempty]
  have "rank_along_dim da dname = apply_along_axis rankdata axis (array da)"
    using time by (simp add: rank_along_dim_def get_axis_num_def)
  then show ?thesis
    unfolding apply_along_axis_rankdata [OF ax nz]
    using wf by (simp add: wf_DataArray_def wf_ndarray_def)
qed

theorem rank_along_dim_shape_witness:
  "wf_DataArray grid_2x2
   \<and> index_of (dims grid_2x2) ''time'' = Some 0
   \<and> shape (array grid_2x2) = [2, 2]
   \<and> (\<exists>r. rank_along_dim grid_2x2 ''time'' = Inr r
           \<and> shape r = shape (array grid_2x2)
           \<and> length (data r) = length (data (array grid_2x2)))"
proof -
  have wf: "wf_DataArray grid_2x2"
    by (simp add: wf_DataArray_def wf_ndarray_def grid_2x2_def)
  have time: "index_of (dims grid_2x2) ''time'' = Some 0"
    by (simp add: grid_2x2_def)
  have nonempty: "\<forall>i<length (shape (array grid_2x2)). i \<noteq> 0 \<longrightarrow> shape (array grid_2x2) ! i \<noteq> 0"
    by (simp add: grid_2x2_def less_Suc_eq)
  have shp: "shape (array grid_2x2) = [2, 2]"
    by (simp add: grid_2x2_def)
  from rank_along_dim_shape [OF wf time nonempty, of "''time''"] wf time shp
  show ?thesis by blast
qed

subsection \<open>Metadata of the rankings\<close>

text \<open>
  C4: whenever the helper returns an array, \<open>rank_by_dayofyear\<close> and \<open>rank_by_monthday\<close>
  return it with the name set to the name it carried with \<open>_rank\<close> appended, the
  attribute \<open>units\<close> set to \<open>1\<close> and the attribute \<open>cell_methods\<close> set to
  \<open>time: rank_by_dayofyear\<close> and \<open>time: rank_by_monthday\<close> respectively.
\<close>

theorem rank_by_metadata:
  assumes "helper da (\<lambda>g. rank_along_dim g ''time'') = Inr r"
  shows "(\<exists>r'. rank_by_dayofyear helper da = Inr r'
            \<and> name r' = Some (format_name (name r) @ ''_rank'')
            \<and> attrs r' ''units'' = Some ''1''
            \<and> attrs r' ''cell_methods'' = Some ''time: rank_by_dayofyear'')
       \<and> (\<exists>r'. rank_by_monthday helper da = Inr r'
            \<and> name r' = Some (format_name (name r) @ ''_rank'')
            \<and> attrs r' ''units'' = Some ''1''
            \<and> attrs r' ''cell_methods'' = Some ''time: rank_by_monthday'')"
  using assms by (simp add: rank_by_dayofyear_def rank_by_monthday_def)

theorem rank_by_metadata_witness:
  "apply_to_whole grid_2x2 (\<lambda>g. rank_along_dim g ''time'')
     = Inr (wrap_like grid_2x2 \<lparr>shape = [2, 2], data = [1, 1, 2, 2]\<rparr>)
   \<and> (\<exists>r'. rank_by_dayofyear apply_to_whole grid_2x2 = Inr r'
          \<and> name r' = Some ''tas_rank''
          \<and> attrs r' ''units'' = Some ''1''
          \<and> attrs r' ''cell_methods'' = Some ''time: rank_by_dayofyear'')
   \<and> (\<exists>r'. rank_by_monthday apply_to_whole grid_2x2 = Inr r'
          \<and> name r' = Some ''tas_rank''
          \<and> attrs r' ''units'' = Some ''1''
          \<and> attrs r' ''cell_methods'' = Some ''time: rank_by_monthday'')"
proof -
  have ranks: "rank_along_dim grid_2x2 ''time'' = Inr \<lparr>shape = [2, 2], data = [1, 1, 2, 2]\<rparr>"
    by code_simp
  have h: "apply_to_whole grid_2x2 (\<lambda>g. rank_along_dim g ''time'')
      = Inr (wrap_like grid_2x2 \<lparr>shape = [2, 2], data = [1, 1, 2, 2]\<rparr>)"
    by (simp add: apply_to_whole_def ranks)
  have n: "format_name (name (wrap_like grid_2x2 \<lparr>shape = [2, 2], data = [1, 1, 2, 2::real]\<rparr>)) @ ''_rank''
      = ''tas_rank''"
    by (simp add: wrap_like_def grid_2x2_def)
  from rank_by_metadata [of apply_to_whole grid_2x2
      "wrap_like grid_2x2 \<lparr>shape = [2, 2], data = [1, 1, 2, 2]\<rparr>", OF h] h
  show ?thesis
    unfolding n by blast
qed

text \<open>
  C10: when the array the helper returns carries no name, the array returned by
  \<open>rank_by_dayofyear\<close> and by \<open>rank_by_monthday\<close> is called \<open>None_rank\<close>.
\<close>

theorem rank_by_unnamed:
  assumes "helper da (\<lambda>g. rank_along_dim g ''time'') = Inr r" and "name r = None"
  shows "(\<exists>r'. rank_by_dayofyear helper da = Inr r' \<and> name r' = Some ''None_rank'')
       \<and> (\<exists>r'. rank_by_monthday helper da = Inr r' \<and> name r' = Some ''None_rank'')"
  using assms by (simp add: rank_by_dayofyear_def rank_by_monthday_def)

theorem rank_by_unnamed_witness:
  "apply_to_whole unnamed_2x2 (\<lambda>g. rank_along_dim g ''time'')
     = Inr (wrap_like unnamed_2x2 \<lparr>shape = [2, 2], data = [1, 1, 2, 2]\<rparr>)
   \<and> name (wrap_like unnamed_2x2 \<lparr>shape = [2, 2], data = [1, 1, 2, 2::real]\<rparr>) = None
   \<and> (\<exists>r'. rank_by_dayofyear apply_to_whole unnamed_2x2 = Inr r' \<and> name r' = Some ''None_rank'')
   \<and> (\<exists>r'. rank_by_monthday apply_to_whole unnamed_2x2 = Inr r' \<and> name r' = Some ''None_rank'')"
proof -
  have ranks: "rank_along_dim unnamed_2x2 ''time'' = Inr \<lparr>shape = [2, 2], data = [1, 1, 2, 2]\<rparr>"
    by code_simp
  have h: "apply_to_whole unnamed_2x2 (\<lambda>g. rank_along_dim g ''time'')
      = Inr (wrap_like unnamed_2x2 \<lparr>shape = [2, 2], data = [1, 1, 2, 2]\<rparr>)"
    by (simp add: apply_to_whole_def ranks)
  have n: "name (wrap_like unnamed_2x2 \<lparr>shape = [2, 2], data = [1, 1, 2, 2::real]\<rparr>) = None"
    by (simp add: wrap_like_def unnamed_2x2_def)
  from rank_by_unnamed [of apply_to_whole unnamed_2x2
      "wrap_like unnamed_2x2 \<lparr>shape = [2, 2], data = [1, 1, 2, 2]\<rparr>", OF h n] h n
  show ?thesis by blast
qed

section \<open>Properties of the blocked operations\<close>

subsection \<open>Calendar\<close>

lemma div_pred:
  fixes y k :: int
  assumes "0 < k"
  shows "(y - 1) div k = (if y mod k = 0 then y div k - 1 else y div k)"
proof (cases "y mod k = 0")
  case True
  have "y - 1 = k * (y div k - 1) + (k - 1)"
    using True mult_div_mod_eq [of k y] by (simp add: algebra_simps)
  then have "(y - 1) div k = y div k - 1"
    using assms int_div_pos_eq [of "y - 1" k "y div k - 1" "k - 1"] by simp
  with True show ?thesis by simp
next
  case False
  have "0 \<le> y mod k" "y mod k < k" using assms by simp_all
  with False have r: "0 \<le> y mod k - 1" "y mod k - 1 < k" by simp_all
  have "y - 1 = k * (y div k) + (y mod k - 1)"
    using mult_div_mod_eq [of k y] by simp
  then have "(y - 1) div k = y div k"
    using r int_div_pos_eq [of "y - 1" k "y div k" "y mod k - 1"] by simp
  with False show ?thesis by simp
qed

lemma mod_100_4: "(y::int) mod 100 = 0 \<Longrightarrow> y mod 4 = 0"
  using mod_mod_cancel [of 4 100 y] by simp

lemma mod_400_100: "(y::int) mod 400 = 0 \<Longrightarrow> y mod 100 = 0"
  using mod_mod_cancel [of 100 400 y] by simp

lemma days_before_next_year:
  "days_before_year (y + 1) = days_before_year y + (if is_leap y then 366 else 365)"
  using mod_100_4 [of y] mod_400_100 [of y]
  by (auto simp: days_before_year_def is_leap_def div_pred)

lemma upt_1_12: "[1..<12] = [1, 2, 3, 4, 5, 6, 7, 8, 9, 10, 11::nat]"
  by code_simp

lemma months_before_december:
  "sum_list (map (days_in_month y) [1..<12]) = (if is_leap y then 335 else 334)"
  unfolding upt_1_12 by (simp add: days_in_month_def)

text \<open>The day after a valid date is the next ordinal.\<close>

lemma toordinal_next_day:
  assumes "valid_date d"
  shows "toordinal (next_day d) = toordinal d + 1"
proof (cases "day d < days_in_month (year d) (month d)")
  case True
  then show ?thesis by (simp add: next_day_def toordinal_def dayofyear_def)
next
  case False
  with assms have last_day: "day d = days_in_month (year d) (month d)"
    by (simp add: valid_date_def)
  show ?thesis
  proof (cases "month d < 12")
    case True
    from assms have "1 \<le> month d" by (simp add: valid_date_def)
    then have "[1..<Suc (month d)] = [1..<month d] @ [month d]" by simp
    with True last_day show ?thesis
      by (simp add: next_day_def toordinal_def dayofyear_def)
  next
    case False
    with assms have dec: "month d = 12" by (simp add: valid_date_def)
    with last_day have d31: "day d = 31" by (simp add: days_in_month_def)
    show ?thesis
      using dec d31 months_before_december [of "year d"]
      by (simp add: next_day_def toordinal_def dayofyear_def days_before_next_year days_in_month_def)
  qed
qed

lemma valid_next_day: "valid_date d \<Longrightarrow> valid_date (next_day d)"
  by (simp add: valid_date_def next_day_def days_in_month_def)

lemma steps_date_range:
  "valid_date d \<Longrightarrow> steps (date_range d n) = replicate (n - 1) 1"
proof (induction n arbitrary: d)
  case 0
  then show ?case by simp
next
  case (Suc n)
  show ?case
  proof (cases n)
    case 0
    then show ?thesis by simp
  next
    case (Suc k)
    have "steps (date_range d (Suc (Suc k))) =
        (toordinal (next_day d) - toordinal d) # steps (date_range (next_day d) (Suc k))"
      by simp
    also have "\<dots> = 1 # replicate k 1"
      using Suc.IH [OF valid_next_day [OF Suc.prems]] Suc toordinal_next_day [OF Suc.prems]
      by simp
    finally show ?thesis using Suc by simp
  qed
qed

lemma daily_date_range: "valid_date d \<Longrightarrow> daily (date_range d n)"
  by (simp add: daily_def steps_date_range list_all_iff)

lemma daily_regular: "daily ts \<Longrightarrow> regular ts"
  by (auto simp: daily_def regular_def list_all_iff split: list.splits)

lemma length_date_range: "length (date_range d n) = n"
  by (induction n arbitrary: d) auto

lemma last_date_range: "last (date_range d (Suc n)) = (next_day ^^ n) d"
proof (induction n arbitrary: d)
  case 0
  then show ?case by simp
next
  case (Suc n)
  have "last (date_range d (Suc (Suc n))) = last (date_range (next_day d) (Suc n))"
    by simp
  also have "\<dots> = (next_day ^^ n) (next_day d)" by (rule Suc.IH)
  also have "\<dots> = (next_day ^^ Suc n) d" by (simp add: funpow_swap1)
  finally show ?case .
qed

lemma run_in_month:
  "day d + k \<le> days_in_month (year d) (month d) \<Longrightarrow> (next_day ^^ k) d = d\<lparr>day := day d + k\<rparr>"
proof (induction k)
  case 0
  then show ?case by simp
next
  case (Suc k)
  then have "(next_day ^^ k) d = d\<lparr>day := day d + k\<rparr>" by simp
  then have "(next_day ^^ Suc k) d = next_day (d\<lparr>day := day d + k\<rparr>)" by simp
  also have "\<dots> = d\<lparr>day := day d + Suc k\<rparr>"
    using Suc.prems by (simp add: next_day_def)
  finally show ?case .
qed

lemma days_in_month_pos: "0 < days_in_month y m"
  by (simp add: days_in_month_def)

lemma month_start:
  "m < 12 \<Longrightarrow>
     (next_day ^^ sum_list (map (days_in_month y) [1..<Suc m])) \<lparr>year = y, month = 1, day = 1\<rparr>
       = \<lparr>year = y, month = Suc m, day = 1\<rparr>"
proof (induction m)
  case 0
  then show ?case by simp
next
  case (Suc m)
  let ?n = "days_in_month y (Suc m)"
  have split: "sum_list (map (days_in_month y) [1..<Suc (Suc m)])
      = Suc (?n - 1) + sum_list (map (days_in_month y) [1..<Suc m])"
    using days_in_month_pos [of y "Suc m"] by simp
  have "(next_day ^^ sum_list (map (days_in_month y) [1..<Suc (Suc m)]))
          \<lparr>year = y, month = 1, day = 1\<rparr>
      = (next_day ^^ Suc (?n - 1)) \<lparr>year = y, month = Suc m, day = 1\<rparr>"
    unfolding split funpow_add using Suc by simp
  also have "\<dots> = next_day ((next_day ^^ (?n - 1)) \<lparr>year = y, month = Suc m, day = 1\<rparr>)"
    by simp
  also have "(next_day ^^ (?n - 1)) \<lparr>year = y, month = Suc m, day = 1\<rparr>
      = \<lparr>year = y, month = Suc m, day = ?n\<rparr>"
    using run_in_month [of "\<lparr>year = y, month = Suc m, day = 1\<rparr>" "?n - 1"]
      days_in_month_pos [of y "Suc m"] by simp
  also have "next_day \<lparr>year = y, month = Suc m, day = ?n\<rparr>
      = \<lparr>year = y, month = Suc (Suc m), day = 1\<rparr>"
    using Suc.prems by (simp add: next_day_def)
  finally show ?case .
qed

lemma days_in_year_sum: "days_in_year y = sum_list (map (days_in_month y) [1..<12]) + 31"
  unfolding days_in_year_def months_before_december by simp

text \<open>A year that starts on 1 January ends on 31 December, and the next one follows.\<close>

lemma year_end:
  "(next_day ^^ (days_in_year y - 1)) \<lparr>year = y, month = 1, day = 1\<rparr>
     = \<lparr>year = y, month = 12, day = 31\<rparr>"
proof -
  have "days_in_year y - 1 = 30 + sum_list (map (days_in_month y) [1..<Suc 11])"
    by (simp add: days_in_year_sum)
  then have "(next_day ^^ (days_in_year y - 1)) \<lparr>year = y, month = 1, day = 1\<rparr>
      = (next_day ^^ 30) \<lparr>year = y, month = Suc 11, day = 1\<rparr>"
    using month_start [of 11 y] by (simp add: funpow_add)
  also have "\<dots> = \<lparr>year = y, month = 12, day = 31\<rparr>"
    using run_in_month [of "\<lparr>year = y, month = Suc 11, day = 1\<rparr>" 30]
    by (simp add: days_in_month_def)
  finally show ?thesis .
qed

lemma year_turn:
  "(next_day ^^ days_in_year y) \<lparr>year = y, month = 1, day = 1\<rparr>
     = \<lparr>year = y + 1, month = 1, day = 1\<rparr>"
proof -
  have "days_in_year y = Suc (days_in_year y - 1)" by (simp add: days_in_year_def)
  then have "(next_day ^^ days_in_year y) \<lparr>year = y, month = 1, day = 1\<rparr>
      = next_day ((next_day ^^ (days_in_year y - 1)) \<lparr>year = y, month = 1, day = 1\<rparr>)"
    by (metis funpow.simps(2) o_apply)
  then show ?thesis unfolding year_end by (simp add: next_day_def days_in_month_def)
qed

lemma whole_years_2002_2004: "whole_years days_2002_2004"
proof -
  let ?d = "\<lparr>year = 2002, month = 1, day = 1\<rparr>"
  have n: "(1096::nat) = Suc ((days_in_year 2004 - 1) + (days_in_year 2003 + days_in_year 2002))"
    by (simp add: days_in_year_def is_leap_def)
  have "last (date_range ?d 1096)
      = (next_day ^^ ((days_in_year 2004 - 1) + (days_in_year 2003 + days_in_year 2002))) ?d"
    unfolding n by (rule last_date_range)
  also have "\<dots> = \<lparr>year = 2004, month = 12, day = 31\<rparr>"
    using year_turn [of 2002] year_turn [of 2003] year_end [of 2004]
    by (simp add: funpow_add)
  finally have l: "last days_2002_2004 = \<lparr>year = 2004, month = 12, day = 31\<rparr>"
    by (simp add: days_2002_2004_def)
  have "date_range ?d 1096 = ?d # date_range (next_day ?d) 1095"
    using date_range.simps(2) [of ?d 1095] by simp
  then have h: "hd days_2002_2004 = ?d" "days_2002_2004 \<noteq> []"
    by (simp_all add: days_2002_2004_def)
  show ?thesis using l h by (simp add: whole_years_def)
qed

lemma daily_2002_2004: "daily days_2002_2004"
  unfolding days_2002_2004_def
  by (rule daily_date_range) (simp add: valid_date_def days_in_month_def)

lemma series_time: "map_of (axis_coords (series ts)) ''time'' = Some ts"
  by (simp add: series_def)

lemma wf_series: "wf_labeled (series ts)"
  by (simp add: series_def wf_labeled_def)

subsection \<open>Groups as filtered pairs and as positions\<close>

lemma zip_by_index:
  "length ks = length vs \<Longrightarrow> zip ks vs = map (\<lambda>i. (ks ! i, vs ! i)) [0..<length ks]"
  by (rule nth_equalityI) auto

lemma filter_zip_by_index:
  assumes "length ks = length vs"
  shows "map snd (filter (\<lambda>(k', v). k' = k) (zip ks vs)) = map (\<lambda>i. vs ! i) (positions_of ks k)"
proof -
  have "filter (\<lambda>(k', v). k' = k) (zip ks vs)
      = map (\<lambda>i. (ks ! i, vs ! i)) (filter (\<lambda>i. ks ! i = k) [0..<length ks])"
    unfolding zip_by_index [OF assms] filter_map by (simp add: comp_def)
  then show ?thesis by (simp add: comp_def positions_of_def)
qed

lemma zip_with_image: "zip xs (map f xs) = map (\<lambda>x. (x, f x)) xs"
  by (induction xs) auto

lemma count_filter_zip:
  "length ks = length vs \<Longrightarrow>
     length (filter (\<lambda>(k', v). k' = k) (zip ks vs)) = length (filter (\<lambda>k'. k' = k) ks)"
  by (induction ks vs rule: list_induct2) auto

text \<open>
  The entry at position \<open>i\<close> stands, within its group, at the place given by the number
  of earlier positions with the same key.
\<close>

lemma entry_in_group:
  assumes len: "length ks = length vs" and i: "i < length ks"
  shows "map snd (filter (\<lambda>(k', v). k' = ks ! i) (zip ks vs))
           ! length (filter (\<lambda>k'. k' = ks ! i) (take i ks)) = vs ! i"
proof -
  let ?P = "\<lambda>(k', v::'b). k' = ks ! i"
  have ks: "ks = take i ks @ ks ! i # drop (Suc i) ks"
    using i by (rule id_take_nth_drop)
  have vs: "vs = take i vs @ vs ! i # drop (Suc i) vs"
    using i len by (intro id_take_nth_drop) simp
  have "zip ks vs = zip (take i ks) (take i vs)
      @ (ks ! i, vs ! i) # zip (drop (Suc i) ks) (drop (Suc i) vs)"
    using i len by (subst ks, subst vs) simp
  then have "map snd (filter ?P (zip ks vs))
      = map snd (filter ?P (zip (take i ks) (take i vs)))
        @ vs ! i # map snd (filter ?P (zip (drop (Suc i) ks) (drop (Suc i) vs)))"
    by simp
  moreover have "length (map snd (filter ?P (zip (take i ks) (take i vs))))
      = length (filter (\<lambda>k'. k' = ks ! i) (take i ks))"
    using count_filter_zip [of "take i ks" "take i vs" "ks ! i"] len by simp
  ultimately show ?thesis
    by (metis nth_append_length)
qed

lemma position_of_member:
  "j \<in> set p \<Longrightarrow> position_of p j < length p \<and> p ! position_of p j = j"
  by (induction p) (auto simp: position_of_def)

text \<open>The positions of all the groups, joined in key order, are a permutation of the axis.\<close>

lemma set_concat_positions:
  "set (concat (map (positions_of ks) (sort (remdups ks)))) = {0..<length ks}"
  by (auto simp: positions_of_def)

lemma distinct_concat_positions:
  "distinct (concat (map (positions_of ks) (sort (remdups ks))))"
proof (rule distinct_concat)
  have inj: "inj_on (positions_of ks) (set ks)"
  proof (rule inj_onI)
    fix k k'
    assume k: "k \<in> set ks" and "k' \<in> set ks"
      and eq: "positions_of ks k = positions_of ks k'"
    from k obtain i where "i < length ks" "ks ! i = k" by (auto simp: in_set_conv_nth)
    then have "i \<in> set (positions_of ks k)" by (simp add: positions_of_def)
    with eq have "i \<in> set (positions_of ks k')" by simp
    with \<open>ks ! i = k\<close> show "k = k'" by (simp add: positions_of_def)
  qed
  show "distinct (map (positions_of ks) (sort (remdups ks)))"
    using inj by (simp add: distinct_map)
next
  fix ys assume "ys \<in> set (map (positions_of ks) (sort (remdups ks)))"
  then show "distinct ys" by (auto simp: positions_of_def)
next
  fix ys zs
  assume "ys \<in> set (map (positions_of ks) (sort (remdups ks)))"
    and "zs \<in> set (map (positions_of ks) (sort (remdups ks)))" and "ys \<noteq> zs"
  then show "set ys \<inter> set zs = {}" by (auto simp: positions_of_def)
qed

lemma length_concat_positions:
  "length (concat (map (positions_of ks) (sort (remdups ks)))) = length ks"
proof -
  have "length (concat (map (positions_of ks) (sort (remdups ks))))
      = card (set (concat (map (positions_of ks) (sort (remdups ks)))))"
    by (rule distinct_card [OF distinct_concat_positions, symmetric])
  then show ?thesis unfolding set_concat_positions by simp
qed

lemma applied_by_position:
  "concat (map (\<lambda>(k, idx). map (\<lambda>i. vs ! i - c k) idx)
               (zip (sort (remdups ks)) (map (positions_of ks) (sort (remdups ks)))))
   = map (\<lambda>i. vs ! i - c (ks ! i)) (concat (map (positions_of ks) (sort (remdups ks))))"
proof -
  have eq: "(\<lambda>k. map (\<lambda>i. vs ! i - c k) (positions_of ks k))
           = (\<lambda>k. map (\<lambda>i. vs ! i - c (ks ! i)) (positions_of ks k))"
    by (rule ext) (simp add: positions_of_def)
  show ?thesis
    by (simp add: zip_with_image map_concat comp_def eq)
qed

text \<open>
  Joining the groups and putting the result back into the order of the axis gives, at
  every position, the entry minus the value of its key.
\<close>

lemma restore_order:
  fixes vs :: "'a::minus list"
  assumes "length ks = length vs"
  shows "map (\<lambda>j. concat (map (\<lambda>(k, idx). map (\<lambda>i. vs ! i - c k) idx)
                              (zip (sort (remdups ks)) (map (positions_of ks) (sort (remdups ks)))))
                    ! position_of (concat (map (positions_of ks) (sort (remdups ks)))) j)
             [0..<length (concat (map (positions_of ks) (sort (remdups ks))))]
       = map (\<lambda>(k, v). v - c k) (zip ks vs)"
proof -
  let ?p = "concat (map (positions_of ks) (sort (remdups ks)))"
  have "\<And>j. j < length ks \<Longrightarrow>
          map (\<lambda>i. vs ! i - c (ks ! i)) ?p ! position_of ?p j = vs ! j - c (ks ! j)"
  proof -
    fix j assume "j < length ks"
    then have "j \<in> set ?p" unfolding set_concat_positions by simp
    from position_of_member [OF this] show
      "map (\<lambda>i. vs ! i - c (ks ! i)) ?p ! position_of ?p j = vs ! j - c (ks ! j)"
      by simp
  qed
  then have "map (\<lambda>j. map (\<lambda>i. vs ! i - c (ks ! i)) ?p ! position_of ?p j) [0..<length ks]
      = map (\<lambda>j. vs ! j - c (ks ! j)) [0..<length ks]"
    by simp
  then show ?thesis
    unfolding applied_by_position length_concat_positions zip_by_index [OF assms]
    by (simp add: comp_def)
qed

subsection \<open>The wrapper against the library's grouping\<close>

lemma coordinate_length:
  assumes "wf_labeled a" and "map_of (axis_coords a) dname = Some ts"
  shows "length ts = length (entries a)"
proof -
  from assms(2) have "(dname, ts) \<in> set (axis_coords a)" by (rule map_of_SomeD)
  with assms(1) show ?thesis by (auto simp: wf_labeled_def list_all_iff)
qed

lemma blocked_groupby_returns:
  assumes "map_of (axis_coords a) dname = Some ts" and "daily ts" and "whole_years ts"
  shows "blocked_groupby a dname mode = Inr \<lparr>source = a, group_keys = map (group_key mode) ts\<rparr>"
  using assms daily_regular [of ts] by (simp add: blocked_groupby_def)

lemma groupby_returns:
  assumes "map_of (axis_coords a) dname = Some ts"
  shows "groupby a dname key
       = Inr \<lparr>obj = a, unique_coord = sort (remdups (map key ts)),
              group_indices = map (positions_of (map key ts)) (sort (remdups (map key ts)))\<rparr>"
  using assms by (simp add: groupby_def Let_def)

lemma reduce_agrees:
  assumes "length ks = length (entries a)"
  shows "grouped_reduce op \<lparr>source = a, group_keys = ks\<rparr>
       = groupby_reduce op \<lparr>obj = a, unique_coord = sort (remdups ks),
            group_indices = map (positions_of ks) (sort (remdups ks))\<rparr>"
  by (simp add: grouped_reduce_def groupby_reduce_def group_entries_def distinct_keys_def
      sorted_list_of_set_sort_remdups zip_with_image filter_zip_by_index [OF assms] comp_def)

lemma sub_agrees:
  fixes a :: "'a::minus labeled_array"
  assumes "length ks = length (entries a)"
  shows "grouped_sub \<lparr>source = a, group_keys = ks\<rparr> other
       = groupby_sub \<lparr>obj = a, unique_coord = sort (remdups ks),
            group_indices = map (positions_of ks) (sort (remdups ks))\<rparr> other"
proof -
  have present: "list_all (\<lambda>k. map_of other k \<noteq> None) (sort (remdups ks))
      \<longleftrightarrow> list_all (\<lambda>k. map_of other k \<noteq> None) ks"
    by (simp add: list_all_iff)
  note r = restore_order [OF assms, of "\<lambda>k. the (map_of other k)"]
  show ?thesis
    unfolding grouped_sub_def groupby_sub_def Let_def
    by (simp only: grouped.select_convs DataArrayGroupBy.select_convs present r)
qed

lemma reduce_has_every_key:
  "list_all (\<lambda>k. map_of (grouped_reduce op w) k \<noteq> None) (group_keys w)"
proof -
  have "fst ` set (grouped_reduce op w) = set (group_keys w)"
    by (simp add: grouped_reduce_def distinct_keys_def image_image)
  then show ?thesis
    by (simp add: list_all_iff map_of_eq_None_iff)
qed

lemma apply_double:
  assumes "length (group_keys w) = length (entries (source w))"
  shows "grouped_apply (map (\<lambda>x. x * 2)) w = Aligned (times_scalar (source w) 2)"
proof -
  let ?ks = "group_keys w" and ?vs = "entries (source w)"
  have "\<And>i. i < length ?ks \<Longrightarrow>
      map (\<lambda>x. x * 2) (group_entries w (?ks ! i)) ! length (filter (\<lambda>k. k = ?ks ! i) (take i ?ks))
        = ?vs ! i * 2"
  proof -
    fix i assume i: "i < length ?ks"
    have "length (filter (\<lambda>k. k = ?ks ! i) (take i ?ks)) < length (group_entries w (?ks ! i))"
    proof -
      have "length (group_entries w (?ks ! i)) = length (filter (\<lambda>k. k = ?ks ! i) ?ks)"
        using count_filter_zip [OF assms] by (simp add: group_entries_def)
      also have "\<dots> = length (filter (\<lambda>k. k = ?ks ! i) (take i ?ks @ ?ks ! i # drop (Suc i) ?ks))"
        using id_take_nth_drop [OF i] by simp
      finally show ?thesis by simp
    qed
    then show "map (\<lambda>x. x * 2) (group_entries w (?ks ! i))
          ! length (filter (\<lambda>k. k = ?ks ! i) (take i ?ks))
        = ?vs ! i * 2"
      using entry_in_group [OF assms i] by (simp add: group_entries_def)
  qed
  then have "map (\<lambda>i. map (\<lambda>x. x * 2) (group_entries w (?ks ! i))
                         ! length (filter (\<lambda>k. k = ?ks ! i) (take i ?ks))) [0..<length ?ks]
      = map (\<lambda>i. ?vs ! i * 2) [0..<length ?vs]"
    using assms by simp
  also have "\<dots> = map (\<lambda>x. x * 2) ?vs"
    by (rule nth_equalityI) simp_all
  finally show ?thesis
    by (simp add: grouped_apply_def times_scalar_def Let_def list_all_iff)
qed

text \<open>
  C1: for every regular daily series that spans whole years, \<open>blocked_groupby\<close> by
  day of year returns a wrapper, and each of its reductions \<open>min\<close>, \<open>max\<close>, \<open>mean\<close> and
  \<open>sum\<close> equals the same reduction of the library's grouping by day of year: the same
  keys in the same order, with the same value for every key.
\<close>

theorem blocked_groupby_dayofyear_reductions:
  fixes a :: "real labeled_array"
  assumes "wf_labeled a" and "map_of (axis_coords a) dname = Some ts"
    and "daily ts" and "whole_years ts"
  shows "\<exists>w g. blocked_groupby a dname Dayofyear = Inr w
            \<and> groupby a dname dayofyear = Inr g
            \<and> grouped_min w = groupby_reduce minimum g
            \<and> grouped_max w = groupby_reduce maximum g
            \<and> grouped_mean w = groupby_reduce mean g
            \<and> grouped_sum w = groupby_reduce total g"
proof -
  have len: "length (map dayofyear ts) = length (entries a)"
    using coordinate_length [OF assms(1,2)] by simp
  have w: "blocked_groupby a dname Dayofyear = Inr \<lparr>source = a, group_keys = map dayofyear ts\<rparr>"
    using blocked_groupby_returns [OF assms(2-4), of Dayofyear] by simp
  show ?thesis
    unfolding w groupby_returns [OF assms(2)]
    by (simp add: grouped_min_def grouped_max_def grouped_mean_def grouped_sum_def
        reduce_agrees [OF len])
qed

theorem blocked_groupby_dayofyear_reductions_witness:
  "wf_labeled (series days_2002_2004)
   \<and> map_of (axis_coords (series days_2002_2004)) ''time'' = Some days_2002_2004
   \<and> daily days_2002_2004
   \<and> whole_years days_2002_2004
   \<and> (\<exists>w g. blocked_groupby (series days_2002_2004) ''time'' Dayofyear = Inr w
          \<and> groupby (series days_2002_2004) ''time'' dayofyear = Inr g
          \<and> grouped_min w = groupby_reduce minimum g
          \<and> grouped_max w = groupby_reduce maximum g
          \<and> grouped_mean w = groupby_reduce mean g
          \<and> grouped_sum w = groupby_reduce total g)"
  using blocked_groupby_dayofyear_reductions
    [OF wf_series series_time daily_2002_2004 whole_years_2002_2004]
    wf_series [of days_2002_2004] series_time [of days_2002_2004]
    daily_2002_2004 whole_years_2002_2004
  by simp

text \<open>
  C2: \<open>blocked_groupby\<close> and \<open>blocked_resample\<close> raise, when the wrapper is built, if the
  named coordinate does not exist; \<open>blocked_groupby\<close> raises if the axis does not span
  whole years; both raise if the axis is not regular; \<open>blocked_resample\<close> raises if the
  sample count does not divide the length of the axis.
\<close>

theorem blocked_operations_raise:
  "(map_of (axis_coords a) dname = None \<longrightarrow>
      isl (blocked_groupby a dname mode) \<and> isl (blocked_resample a dname n))
   \<and> (map_of (axis_coords a) dname = Some ts \<and> \<not> whole_years ts \<longrightarrow>
      isl (blocked_groupby a dname mode))
   \<and> (map_of (axis_coords a) dname = Some ts \<and> \<not> regular ts \<longrightarrow>
      isl (blocked_groupby a dname mode) \<and> isl (blocked_resample a dname n))
   \<and> (map_of (axis_coords a) dname = Some ts \<and> \<not> n dvd length ts \<longrightarrow>
      isl (blocked_resample a dname n))"
  by (simp add: blocked_groupby_def blocked_resample_def)

theorem blocked_operations_raise_witness:
  "map_of (axis_coords (series days_2002_2004)) ''x'' = None
   \<and> isl (blocked_groupby (series days_2002_2004) ''x'' Dayofyear)
   \<and> isl (blocked_resample (series days_2002_2004) ''x'' 24)
   \<and> \<not> whole_years days_from_jan2
   \<and> isl (blocked_groupby (series days_from_jan2) ''time'' Dayofyear)
   \<and> \<not> regular days_with_gap
   \<and> isl (blocked_groupby (series days_with_gap) ''time'' Dayofyear)
   \<and> isl (blocked_resample (series days_with_gap) ''time'' 24)
   \<and> \<not> 24 dvd length days_15
   \<and> isl (blocked_resample (series days_15) ''time'' 24)"
proof -
  have missing: "map_of (axis_coords (series days_2002_2004)) ''x'' = None"
    by (simp add: series_def)
  have "hd (date_range \<lparr>year = 2002, month = 1, day = 2\<rparr> (Suc 363))
      = \<lparr>year = 2002, month = 1, day = 2\<rparr>"
    by (simp only: date_range.simps list.sel)
  then have "hd days_from_jan2 = \<lparr>year = 2002, month = 1, day = 2\<rparr>"
    by (simp add: days_from_jan2_def)
  then have partial: "\<not> whole_years days_from_jan2"
    by (simp add: whole_years_def)
  have gap: "\<not> regular days_with_gap"
    by code_simp
  have uneven: "\<not> 24 dvd length days_15"
    by (simp add: days_15_def length_date_range)
  show ?thesis
    using missing partial gap uneven
      blocked_operations_raise [of "series days_2002_2004" "''x''" Dayofyear 24]
      blocked_operations_raise [of "series days_from_jan2" "''time''" Dayofyear _ days_from_jan2]
      blocked_operations_raise [of "series days_with_gap" "''time''" Dayofyear 24 days_with_gap]
      blocked_operations_raise [of "series days_15" "''time''" _ 24 days_15]
    by (simp add: series_time)
qed

text \<open>
  C5: for every daily series that spans whole years, subtracting the day-of-year
  climatology \<open>blocked_groupby(...).mean()\<close> from the wrapper gives an anomaly array, and
  it equals the one the library's grouping gives with its own mean and subtraction.
\<close>

theorem blocked_climatology_anomaly:
  fixes a :: "real labeled_array"
  assumes "wf_labeled a" and "map_of (axis_coords a) dname = Some ts"
    and "daily ts" and "whole_years ts"
  shows "\<exists>w g delta. blocked_groupby a dname Dayofyear = Inr w
            \<and> groupby a dname dayofyear = Inr g
            \<and> grouped_sub w (grouped_mean w) = Inr delta
            \<and> groupby_sub g (groupby_reduce mean g) = Inr delta"
proof -
  let ?w = "\<lparr>source = a, group_keys = map dayofyear ts\<rparr>"
  let ?g = "\<lparr>obj = a, unique_coord = sort (remdups (map dayofyear ts)),
             group_indices = map (positions_of (map dayofyear ts))
                                 (sort (remdups (map dayofyear ts)))\<rparr>"
  have len: "length (map dayofyear ts) = length (entries a)"
    using coordinate_length [OF assms(1,2)] by simp
  have w: "blocked_groupby a dname Dayofyear = Inr ?w"
    using blocked_groupby_returns [OF assms(2-4), of Dayofyear] by simp
  have g: "groupby a dname dayofyear = Inr ?g"
    by (rule groupby_returns [OF assms(2)])
  have clim: "groupby_reduce mean ?g = grouped_mean ?w"
    by (simp add: grouped_mean_def reduce_agrees [OF len])
  have same: "groupby_sub ?g (groupby_reduce mean ?g) = grouped_sub ?w (grouped_mean ?w)"
    unfolding clim by (rule sub_agrees [OF len, symmetric])
  have "list_all (\<lambda>k. map_of (grouped_mean ?w) k \<noteq> None) (group_keys ?w)"
    unfolding grouped_mean_def by (rule reduce_has_every_key)
  then obtain delta where d: "grouped_sub ?w (grouped_mean ?w) = Inr delta"
    by (simp add: grouped_sub_def)
  show ?thesis
    using w g d same by simp
qed

theorem blocked_climatology_anomaly_witness:
  "wf_labeled (series days_2002_2004)
   \<and> map_of (axis_coords (series days_2002_2004)) ''time'' = Some days_2002_2004
   \<and> daily days_2002_2004
   \<and> whole_years days_2002_2004
   \<and> (\<exists>w g delta. blocked_groupby (series days_2002_2004) ''time'' Dayofyear = Inr w
          \<and> groupby (series days_2002_2004) ''time'' dayofyear = Inr g
          \<and> grouped_sub w (grouped_mean w) = Inr delta
          \<and> groupby_sub g (groupby_reduce mean g) = Inr delta)"
  using blocked_climatology_anomaly
    [OF wf_series series_time daily_2002_2004 whole_years_2002_2004]
    wf_series [of days_2002_2004] series_time [of days_2002_2004]
    daily_2002_2004 whole_years_2002_2004
  by simp

text \<open>
  C6: for every daily series that spans whole years, \<open>apply\<close> with the function that
  doubles its argument returns the series with every entry doubled: it has the length of
  the series and is aligned with it.
\<close>

theorem blocked_apply_double:
  fixes a :: "real labeled_array"
  assumes "wf_labeled a" and "map_of (axis_coords a) dname = Some ts"
    and "daily ts" and "whole_years ts"
  shows "\<exists>w. blocked_groupby a dname Dayofyear = Inr w
            \<and> grouped_apply (map (\<lambda>x. x * 2)) w = Aligned (times_scalar a 2)
            \<and> length (entries (times_scalar a 2)) = length (entries a)
            \<and> axis_coords (times_scalar a 2) = axis_coords a"
proof -
  let ?w = "\<lparr>source = a, group_keys = map dayofyear ts\<rparr>"
  have len: "length (group_keys ?w) = length (entries (source ?w))"
    using coordinate_length [OF assms(1,2)] by simp
  have w: "blocked_groupby a dname Dayofyear = Inr ?w"
    using blocked_groupby_returns [OF assms(2-4), of Dayofyear] by simp
  show ?thesis
    using w apply_double [OF len] by (simp add: times_scalar_def)
qed

theorem blocked_apply_double_witness:
  "wf_labeled (series days_2002_2004)
   \<and> map_of (axis_coords (series days_2002_2004)) ''time'' = Some days_2002_2004
   \<and> daily days_2002_2004
   \<and> whole_years days_2002_2004
   \<and> (\<exists>w. blocked_groupby (series days_2002_2004) ''time'' Dayofyear = Inr w
          \<and> grouped_apply (map (\<lambda>x. x * 2)) w = Aligned (times_scalar (series days_2002_2004) 2)
          \<and> length (entries (times_scalar (series days_2002_2004) 2))
              = length (entries (series days_2002_2004))
          \<and> axis_coords (times_scalar (series days_2002_2004) 2)
              = axis_coords (series days_2002_2004))"
  using blocked_apply_double
    [OF wf_series series_time daily_2002_2004 whole_years_2002_2004]
    wf_series [of days_2002_2004] series_time [of days_2002_2004]
    daily_2002_2004 whole_years_2002_2004
  by simp

end
